theory Spec2Isabelle
  imports Main "HOL-Library.Char_ord" "HOL-Library.List_Lexorder" "HOL-Library.AList"
    "HOL-Library.Sublist"
begin

section \<open>mdtocgen: a table of contents for a tree of Markdown files\<close>

text \<open>
  The embedding follows the second (current) version of \<^verbatim>\<open>main.go\<close>: the one whose
  \<^verbatim>\<open>CreateTocTree\<close> takes the \<^verbatim>\<open>sortAsc\<close> flag and whose \<^verbatim>\<open>MDFileInfo\<close> has no
  \<^verbatim>\<open>Name\<close> field. Go strings are byte strings, so a Go \<^verbatim>\<open>string\<close> is a \<^typ>\<open>string\<close>
  (a list of 8-bit characters) here. The paths are Unix paths: the separator is \<^verbatim>\<open>/\<close>.
\<close>

subsection \<open>The functions of Go's standard library that the program calls\<close>

text \<open>
  \<^verbatim>\<open>strings.Repeat(s, count)\<close> panics when \<^verbatim>\<open>count\<close> is negative; \<open>None\<close> is that panic.
\<close>

definition Repeat :: "string \<Rightarrow> int \<Rightarrow> string option" where
  "Repeat s count = (if count < 0 then None else Some (concat (replicate (nat count) s)))"

text \<open>
  \<^verbatim>\<open>strings.Split(s, "/")\<close>: the pieces of \<open>s\<close> between the separators; a string with
  no separator (the empty string too) gives one piece.
\<close>

fun Split :: "string \<Rightarrow> char \<Rightarrow> string list" where
  "Split [] sep = [[]]"
| "Split (c # cs) sep =
     (if c = sep then [] # Split cs sep
      else (case Split cs sep of [] \<Rightarrow> [[c]] | w # ws \<Rightarrow> (c # w) # ws))"

text \<open>
  \<^verbatim>\<open>strings.Replace(s, old, new, 1)\<close>: the first occurrence of \<open>old\<close> in \<open>s\<close>, wherever it
  stands, is replaced by \<open>new\<close>; an empty \<open>old\<close> matches at the beginning of \<open>s\<close>.
\<close>

fun Replace1 :: "string \<Rightarrow> string \<Rightarrow> string \<Rightarrow> string" where
  "Replace1 [] old new = (if old = [] then new else [])"
| "Replace1 (c # cs) old new =
     (if take (length old) (c # cs) = old then new @ drop (length old) (c # cs)
      else c # Replace1 cs old new)"

text \<open>
  \<^verbatim>\<open>filepath.Clean\<close>: empty and \<^verbatim>\<open>.\<close> elements are dropped, an inner \<^verbatim>\<open>..\<close> removes the
  element before it, a \<^verbatim>\<open>..\<close> at the start of a rooted path is dropped and one at the
  start of a relative path is kept; the empty result is \<^verbatim>\<open>.\<close>. \<open>clean_elems\<close> keeps the
  elements written so far in reverse.
\<close>

fun clean_elems :: "bool \<Rightarrow> string list \<Rightarrow> string list \<Rightarrow> string list" where
  "clean_elems rooted out [] = rev out"
| "clean_elems rooted out (e # es) =
     (if e = [] \<or> e = ''.'' then clean_elems rooted out es
      else if e = ''..'' then
        (case out of
           [] \<Rightarrow> if rooted then clean_elems rooted [] es else clean_elems rooted [e] es
         | l # ls \<Rightarrow> if l = ''..'' then clean_elems rooted (e # out) es
                     else clean_elems rooted ls es)
      else clean_elems rooted (e # out) es)"

fun join_elems :: "string list \<Rightarrow> string" where
  "join_elems [] = []"
| "join_elems [e] = e"
| "join_elems (e # es) = e @ ''/'' @ join_elems es"

definition Clean :: "string \<Rightarrow> string" where
  "Clean path =
     (let rooted = (path \<noteq> [] \<and> hd path = CHR ''/'');
          out = (if rooted then ''/'' else []) @
                join_elems (clean_elems rooted [] (Split path (CHR ''/'')))
      in if out = [] then ''.'' else out)"

text \<open>
  \<^verbatim>\<open>filepath.Dir\<close>: the path up to and including its last separator, cleaned.
  \<open>dir_part\<close> is that prefix.
\<close>

definition dir_part :: "string \<Rightarrow> string" where
  "dir_part path = rev (dropWhile (\<lambda>c. c \<noteq> CHR ''/'') (rev path))"

definition Dir :: "string \<Rightarrow> string" where
  "Dir path = Clean (dir_part path)"

text \<open>
  \<^verbatim>\<open>filepath.Ext\<close>: the suffix of the last element of the path that starts at its last
  dot, empty when that element has no dot. \<open>ext_rev\<close> scans the reversed path.
\<close>

fun ext_rev :: "string \<Rightarrow> string \<Rightarrow> string" where
  "ext_rev acc [] = []"
| "ext_rev acc (c # cs) =
     (if c = CHR ''/'' then []
      else if c = CHR ''.'' then c # acc
      else ext_rev (c # acc) cs)"

definition Ext :: "string \<Rightarrow> string" where
  "Ext path = ext_rev [] (rev path)"

text \<open>
  \<^verbatim>\<open>filepath.Join(a, b)\<close>: the elements from the first non-empty one on, joined by the
  separator and cleaned; the empty string when both are empty.
\<close>

definition Join :: "string \<Rightarrow> string \<Rightarrow> string" where
  "Join a b =
     (if a \<noteq> [] then Clean (a @ ''/'' @ b)
      else if b \<noteq> [] then Clean b
      else [])"

text \<open>
  \<^verbatim>\<open>url.PathEscape\<close> escapes a string for one segment of a URL path. The letters, the
  digits and \<^verbatim>\<open>- _ . ~ $ & + : = @\<close> stay; every other byte, the separator \<^verbatim>\<open>/\<close>
  among them, becomes \<^verbatim>\<open>%\<close> and its two upper-case hexadecimal digits.
\<close>

definition shouldEscape :: "char \<Rightarrow> bool" where
  "shouldEscape c =
     (let n = (of_char c :: nat) in
      if (97 \<le> n \<and> n \<le> 122) \<or> (65 \<le> n \<and> n \<le> 90) \<or> (48 \<le> n \<and> n \<le> 57) then False
      else if c \<in> set ''-_.~'' then False
      else if c \<in> set ''$&+,/:;=?@'' then c \<in> set ''/;,?''
      else True)"

definition upperhex :: "nat \<Rightarrow> char" where
  "upperhex n = ''0123456789ABCDEF'' ! n"

definition PathEscape :: "string \<Rightarrow> string" where
  "PathEscape s =
     concat (map (\<lambda>c. if shouldEscape c
                       then [CHR ''%'', upperhex (of_char c div 16), upperhex (of_char c mod 16)]
                       else [c]) s)"

subsection \<open>The level-1 heading pattern\<close>

text \<open>
  \<^verbatim>\<open>regexp.MustCompile(`^#\s+(.*)$`)\<close>. In Go's syntax \<^verbatim>\<open>\s\<close> is one of tab, line feed,
  form feed, carriage return and space, \<^verbatim>\<open>.\<close> is any character but the line feed, and
  \<^verbatim>\<open>^\<close> and \<^verbatim>\<open>$\<close> are the two ends of the text. Both repetitions are greedy, so the white
  space takes the longest run it can: a shorter run would leave the text after it with
  everything the longer one leaves. \<open>FindStringSubmatch\<close> is the empty list when the
  line does not match, and the whole match followed by the group otherwise.
\<close>

definition isSpace :: "char \<Rightarrow> bool" where
  "isSpace c = (c \<in> {CHR 0x09, CHR 0x0A, CHR 0x0C, CHR 0x0D, CHR '' ''})"

definition FindStringSubmatch :: "string \<Rightarrow> string list" where
  "FindStringSubmatch line =
     (case line of
        [] \<Rightarrow> []
      | c # rest \<Rightarrow>
          if c = CHR ''#'' \<and> takeWhile isSpace rest \<noteq> [] \<and>
             CHR 0x0A \<notin> set (dropWhile isSpace rest)
          then [line, dropWhile isSpace rest]
          else [])"

definition MatchString :: "string \<Rightarrow> bool" where
  "MatchString line = (FindStringSubmatch line \<noteq> [])"

subsection \<open>GetMDTitle\<close>

text \<open>
  What the program sees of a file: \<^verbatim>\<open>os.Open\<close> fails, or it succeeds and the
  \<^verbatim>\<open>bufio.Scanner\<close> hands out lines (without their line ends) until \<^verbatim>\<open>Scan\<close> returns
  false, at the end of the file (\<open>None\<close>) or at a read error (\<open>Some e\<close>). The program
  never asks the scanner which of the two it was.
\<close>

type_synonym go_error = string

datatype md_file = OpenFails go_error | Opened "string list" "go_error option"

fun scan_loop :: "string list \<Rightarrow> string" where
  "scan_loop [] = []"
| "scan_loop (line # more) =
     (if MatchString line then FindStringSubmatch line ! 1 else scan_loop more)"

definition GetMDTitle :: "(string \<Rightarrow> md_file) \<Rightarrow> string \<Rightarrow> string" where
  "GetMDTitle fs filePath =
     (case fs filePath of
        OpenFails e \<Rightarrow> []
      | Opened lines e \<Rightarrow> scan_loop lines)"

subsection \<open>MDFileInfo and Go's maps\<close>

text \<open>
  A Go map is a reference to a table with one value for each of its keys, or \<^verbatim>\<open>nil\<close>. Here
  it is an association list (\<open>None\<close> for \<^verbatim>\<open>nil\<close>) that is only read through \<open>map_of\<close> and
  through the list of its distinct keys, so that every list stands for a table. Reading
  a \<^verbatim>\<open>nil\<close> map gives what an empty one gives; assigning to one panics. \<^verbatim>\<open>Level\<close> is a Go
  \<^verbatim>\<open>int\<close>; it counts the elements of a path, which has far fewer than \<open>2 ^ 63\<close>, so it
  is an \<^typ>\<open>int\<close> here.
\<close>

type_synonym 'v go_map = "(string \<times> 'v) list option"

datatype MDFileInfo =
  MDFileInfo (IsDir: bool) (Children: "MDFileInfo go_map") (Title: string) (Level: int)
    (Path: string)

text \<open>The value of \<^verbatim>\<open>MDFileInfo{}\<close>, which indexing a map gives for a missing key.\<close>

definition zero_MDFileInfo :: MDFileInfo where
  "zero_MDFileInfo = MDFileInfo False None [] 0 []"

text \<open>\<^verbatim>\<open>reflect.ValueOf(m).MapKeys()\<close>: the keys, each once, in no order that matters.\<close>

definition MapKeys :: "'v go_map \<Rightarrow> string list" where
  "MapKeys m = (case m of None \<Rightarrow> [] | Some kvs \<Rightarrow> remdups (map fst kvs))"

text \<open>\<^verbatim>\<open>_, ok := m[key]\<close>\<close>

definition has_key :: "'v go_map \<Rightarrow> string \<Rightarrow> bool" where
  "has_key m key = (case m of None \<Rightarrow> False | Some kvs \<Rightarrow> map_of kvs key \<noteq> None)"

text \<open>\<^verbatim>\<open>m[key]\<close>\<close>

definition map_index :: "MDFileInfo go_map \<Rightarrow> string \<Rightarrow> MDFileInfo" where
  "map_index m key =
     (case m of
        None \<Rightarrow> zero_MDFileInfo
      | Some kvs \<Rightarrow> (case map_of kvs key of None \<Rightarrow> zero_MDFileInfo | Some v \<Rightarrow> v))"

text \<open>
  \<^verbatim>\<open>m[key] = v\<close>: the outer \<open>None\<close> is the panic \<^verbatim>\<open>assignment to entry in nil map\<close>.
\<close>

definition map_assign :: "'v go_map \<Rightarrow> string \<Rightarrow> 'v \<Rightarrow> 'v go_map option" where
  "map_assign m key v =
     (case m of None \<Rightarrow> None | Some kvs \<Rightarrow> Some (Some (AList.update key v kvs)))"

definition set_Children :: "MDFileInfo \<Rightarrow> MDFileInfo go_map \<Rightarrow> MDFileInfo" where
  "set_Children md m = MDFileInfo (IsDir md) m (Title md) (Level md) (Path md)"

subsection \<open>CreateTocTree\<close>

text \<open>
  \<^verbatim>\<open>sort.Strings\<close> and \<^verbatim>\<open>sort.Sort(sort.Reverse(sort.StringSlice(...)))\<close> compare Go strings,
  byte by byte; the keys are distinct, so each has one result.
\<close>

definition sortedKeys :: "bool \<Rightarrow> string list \<Rightarrow> string list" where
  "sortedKeys sortAsc stringKeys = (if sortAsc then sort stringKeys else rev (sort stringKeys))"

text \<open>
  The \<^verbatim>\<open>switch md.Level\<close>: what the node itself contributes. \<open>None\<close> is the panic of
  \<^verbatim>\<open>strings.Repeat\<close> on a negative count.
\<close>

definition toc_head :: "MDFileInfo \<Rightarrow> string \<Rightarrow> string option" where
  "toc_head md indent =
     (if Level md = 0 then Some (''# '' @ Title md @ ''\<newline>'')
      else if Level md = 1 then
        (if IsDir md then Some (''\<newline>## '' @ Title md @ ''\<newline>\<newline>'')
         else Some (''\<newline>## ['' @ Title md @ '']('' @ Path md @ '')\<newline>\<newline>''))
      else
        (if IsDir md then
           (case Repeat indent (Level md - 2) of
              None \<Rightarrow> None
            | Some ind \<Rightarrow> Some (ind @ ''- '' @ Title md @ ''\<newline>''))
         else
           (case Repeat indent (Level md - 2) of
              None \<Rightarrow> None
            | Some ind \<Rightarrow>
                Some (ind @ ''- ['' @ Title md @ '']('' @ Path md @ '')\<newline>''))))"

text \<open>\<^verbatim>\<open>toc += ...\<close> for each child in turn; a panic anywhere is the panic of the whole.\<close>

fun append_all :: "string option \<Rightarrow> string option list \<Rightarrow> string option" where
  "append_all toc [] = toc"
| "append_all toc (r # rs) =
     (case toc of
        None \<Rightarrow> None
      | Some t \<Rightarrow> (case r of None \<Rightarrow> None | Some s \<Rightarrow> append_all (Some (t @ s)) rs))"

function CreateTocTree :: "MDFileInfo \<Rightarrow> string \<Rightarrow> bool \<Rightarrow> string option" where
  "CreateTocTree md indent sortAsc =
     append_all (toc_head md indent)
       (map (\<lambda>key. CreateTocTree (map_index (Children md) key) indent sortAsc)
            (sortedKeys sortAsc (MapKeys (Children md))))"
  by pat_completeness auto
termination
proof (relation "measure (\<lambda>(md, indent, sortAsc). size md)")
  show "wf (measure (\<lambda>(md, indent, sortAsc). size md))" by simp
next
  fix md :: MDFileInfo and indent :: string and sortAsc :: bool and key :: string
  assume "key \<in> set (sortedKeys sortAsc (MapKeys (Children md)))"
  then have key: "key \<in> set (MapKeys (Children md))"
    by (simp add: sortedKeys_def split: if_splits)
  obtain d ch t l p where md: "md = MDFileInfo d ch t l p" by (cases md)
  from key md obtain kvs where ch: "ch = Some kvs" and k: "key \<in> fst ` set kvs"
    by (auto simp: MapKeys_def split: option.splits)
  then obtain v where v: "map_of kvs key = Some v"
    by (metis domD dom_map_of_conv_image_fst)
  then have "(key, v) \<in> set kvs" by (rule map_of_SomeD)
  then have "size v < Suc (size_list (size_prod (\<lambda>_. 0) size) kvs)"
    by (induction kvs) auto
  with md ch v have "size (map_index (Children md) key) < size md"
    by (simp add: map_index_def)
  then show "((map_index (Children md) key, indent, sortAsc), (md, indent, sortAsc))
             \<in> measure (\<lambda>(md, indent, sortAsc). size md)"
    by simp
qed

declare CreateTocTree.simps [simp del]

subsection \<open>ListMDFiles\<close>

text \<open>
  The body of the callback from \<^verbatim>\<open>p := root\<close> on. \<^verbatim>\<open>p\<close> is a copy of a struct, and the copy
  shares the struct's map: what is assigned through \<^verbatim>\<open>p.Children\<close> is in the tree. So the
  function returns the node \<^verbatim>\<open>p\<close> started as, with everything below it that the rest of
  the loop and the last assignment changed; \<open>None\<close> is the panic of an assignment to
  the \<^verbatim>\<open>nil\<close> map of a document.
\<close>

fun insert_doc :: "MDFileInfo \<Rightarrow> string list \<Rightarrow> string \<Rightarrow> string \<Rightarrow> string \<Rightarrow> MDFileInfo option" where
  "insert_doc p [] name title path =
     map_option (set_Children p)
       (map_assign (Children p) name (MDFileInfo False None title (Level p + 1) path))"
| "insert_doc p (d # dirs) name title path =
     (if d = ''.'' then insert_doc p dirs name title path
      else
        (case (if has_key (Children p) d then Some (Children p)
               else map_assign (Children p) d
                      (MDFileInfo True (Some []) d (Level p + 1) (PathEscape (Join (Path p) d)))) of
           None \<Rightarrow> None
         | Some m \<Rightarrow>
             (case insert_doc (map_index m d) dirs name title path of
                None \<Rightarrow> None
              | Some child \<Rightarrow> map_option (set_Children p) (map_assign m d child))))"

text \<open>
  One call of the callback by \<^verbatim>\<open>filepath.Walk\<close>: an entry with its path and its
  \<^verbatim>\<open>os.FileInfo\<close> (\<^verbatim>\<open>Name()\<close>, \<^verbatim>\<open>IsDir()\<close>), or a path with the error of reading it. The
  errors are those of the file system, never the markers \<^verbatim>\<open>SkipDir\<close> and \<^verbatim>\<open>SkipAll\<close>.
\<close>

datatype walk_call = Visit string string bool | WalkError string go_error


text \<open>
  The callback: the tree after the call and the error it returns; \<open>None\<close> is a panic.
\<close>

definition walkFn ::
  "string \<Rightarrow> (string \<Rightarrow> md_file) \<Rightarrow> MDFileInfo \<Rightarrow> walk_call \<Rightarrow> (MDFileInfo \<times> go_error option) option"
where
  "walkFn dirPath fs root c =
     (case c of
        WalkError path err \<Rightarrow> Some (root, Some err)
      | Visit path name isDir \<Rightarrow>
          if \<not> isDir \<and> name \<noteq> ''README.md'' \<and> Ext path = ''.md'' then
            (let relPath = Replace1 path dirPath ''.'';
                 dirs = Split (Dir relPath) (CHR ''/'')
             in case insert_doc root dirs name (GetMDTitle fs path) (PathEscape relPath) of
                  None \<Rightarrow> None
                | Some root' \<Rightarrow> Some (root', None))
          else Some (root, None))"

text \<open>
  \<^verbatim>\<open>filepath.Walk\<close> calls the callback for one entry after the other and stops at the
  first call that returns an error, which it returns.
\<close>

fun Walk ::
  "string \<Rightarrow> (string \<Rightarrow> md_file) \<Rightarrow> MDFileInfo \<Rightarrow> walk_call list \<Rightarrow> (MDFileInfo \<times> go_error option) option"
where
  "Walk dirPath fs root [] = Some (root, None)"
| "Walk dirPath fs root (c # cs) =
     (case walkFn dirPath fs root c of
        None \<Rightarrow> None
      | Some (root', Some err) \<Rightarrow> Some (root', Some err)
      | Some (root', None) \<Rightarrow> Walk dirPath fs root' cs)"

text \<open>
  \<^verbatim>\<open>ListMDFiles\<close> returns \<^verbatim>\<open>root, err\<close> or \<^verbatim>\<open>root, nil\<close>: in both cases the root whose map
  the callback has filled so far.
\<close>

definition ListMDFiles ::
  "string \<Rightarrow> (string \<Rightarrow> md_file) \<Rightarrow> walk_call list \<Rightarrow> (MDFileInfo \<times> go_error option) option"
where
  "ListMDFiles dirPath fs calls = Walk dirPath fs (MDFileInfo True (Some []) [] 0 ''.'') calls"

subsection \<open>Notions of the specification\<close>

text \<open>The nodes of a tree: the node itself and the nodes of the trees below it.\<close>

function nodes :: "MDFileInfo \<Rightarrow> MDFileInfo list" where
  "nodes md = md # concat (map (\<lambda>key. nodes (map_index (Children md) key)) (MapKeys (Children md)))"
  by pat_completeness auto
termination
proof (relation "measure size")
  show "wf (measure (size :: MDFileInfo \<Rightarrow> nat))" by simp
next
  fix md :: MDFileInfo and key :: string
  assume key: "key \<in> set (MapKeys (Children md))"
  obtain d ch t l p where md: "md = MDFileInfo d ch t l p" by (cases md)
  from key md obtain kvs where ch: "ch = Some kvs" and k: "key \<in> fst ` set kvs"
    by (auto simp: MapKeys_def split: option.splits)
  then obtain v where v: "map_of kvs key = Some v"
    by (metis domD dom_map_of_conv_image_fst)
  then have "(key, v) \<in> set kvs" by (rule map_of_SomeD)
  then have "size v < Suc (size_list (size_prod (\<lambda>_. 0) size) kvs)"
    by (induction kvs) auto
  with md ch v show "(map_index (Children md) key, md) \<in> measure size"
    by (simp add: map_index_def)
qed

declare nodes.simps [simp del]

text \<open>
  Following the specification's words: the rendering with the flag true, in which the
  order of the top-level groupings (the outputs of the root's children) and, within each
  of them, the order of the second-level groupings (the outputs of that child's children)
  have been reversed. \<open>groupings\<close> are the children in the order of that rendering.
\<close>

definition groupings :: "MDFileInfo \<Rightarrow> MDFileInfo list" where
  "groupings md = map (map_index (Children md)) (sortedKeys True (MapKeys (Children md)))"

definition reversed_groupings :: "MDFileInfo \<Rightarrow> string \<Rightarrow> string option" where
  "reversed_groupings md indent =
     append_all (toc_head md indent)
       (rev (map (\<lambda>c. append_all (toc_head c indent)
                         (rev (map (\<lambda>g. CreateTocTree g indent True) (groupings c))))
                 (groupings md)))"

text \<open>No node of the tree has more than one child.\<close>

definition few_children :: "MDFileInfo \<Rightarrow> bool" where
  "few_children g = list_all (\<lambda>n. length (MapKeys (Children n)) \<le> 1) (nodes g)"

text \<open>
  Every child's \<^verbatim>\<open>Level\<close> is its parent's plus 1, for every node of the tree.
\<close>

definition levels_ok :: "MDFileInfo \<Rightarrow> bool" where
  "levels_ok root =
     list_all (\<lambda>n. list_all (\<lambda>key. Level (map_index (Children n) key) = Level n + 1)
                               (MapKeys (Children n)))
              (nodes root)"

text \<open>The node that a list of keys leads to from a node, if there is one.\<close>

fun node_at :: "MDFileInfo \<Rightarrow> string list \<Rightarrow> MDFileInfo option" where
  "node_at md [] = Some md"
| "node_at md (key # keys) =
     (if has_key (Children md) key then node_at (map_index (Children md) key) keys else None)"

text \<open>A call of the callback with an error.\<close>

definition is_error :: "walk_call \<Rightarrow> bool" where
  "is_error c = (case c of Visit path name isDir \<Rightarrow> False | WalkError path err \<Rightarrow> True)"


text \<open>
  The place of a file in the tree: the keys that the callback follows for it (the elements
  of the directory of \<^verbatim>\<open>relPath\<close> but \<^verbatim>\<open>.\<close>), then the key it assigns (the name).
\<close>

definition doc_position :: "string \<Rightarrow> walk_call \<Rightarrow> string list" where
  "doc_position dirPath c =
     (case c of
        Visit path name isDir \<Rightarrow>
          filter (\<lambda>d. d \<noteq> ''.'') (Split (Dir (Replace1 path dirPath ''.'')) (CHR ''/'')) @ [name]
      | WalkError path err \<Rightarrow> [])"




subsection \<open>Example inputs\<close>


definition fs_empty_heading :: "string \<Rightarrow> md_file" where
  "fs_empty_heading p =
     (if p = ''a.md'' then Opened [''intro'', ''# '', ''# Real Title''] None
      else if p = ''b.md'' then Opened [''intro'', ''text''] None
      else OpenFails ''no such file'')"

definition tree_siblings :: MDFileInfo where
  "tree_siblings =
     MDFileInfo True
       (Some [(''docs'',
          MDFileInfo True
            (Some [(''b.md'', MDFileInfo False None ''Beta'' 2 ''.%2Fdocs%2Fb.md''),
                   (''a.md'', MDFileInfo False None ''Alpha'' 2 ''.%2Fdocs%2Fa.md'')])
            ''docs'' 1 ''docs'')])
       ''notes'' 0 ''.''"

definition tree_titles :: MDFileInfo where
  "tree_titles =
     MDFileInfo True
       (Some [(''docs'',
          MDFileInfo True
            (Some [(''a.md'', MDFileInfo False None ''Zulu'' 2 ''.%2Fdocs%2Fa.md''),
                   (''b.md'', MDFileInfo False None ''Alpha'' 2 ''.%2Fdocs%2Fb.md'')])
            ''docs'' 1 ''docs'')])
       ''notes'' 0 ''.''"

definition node_guide :: MDFileInfo where
  "node_guide = MDFileInfo False None ''Guide'' 3 ''.%2Fdocs%2Fsub%2Fguide.md''"

definition node_untitled :: MDFileInfo where
  "node_untitled = MDFileInfo False None [] 2 ''.%2Fdocs%2Fdraft.md''"

definition node_sub :: MDFileInfo where
  "node_sub = MDFileInfo True (Some [(''guide.md'', node_guide)]) ''sub'' 2 ''docs%2Fsub''"

definition tree_deep :: MDFileInfo where
  "tree_deep =
     MDFileInfo True
       (Some [(''docs'',
          MDFileInfo True
            (Some [(''sub'',
               MDFileInfo True
                 (Some [(''a.md'', MDFileInfo False None ''Alpha'' 3 ''.%2Fdocs%2Fsub%2Fa.md''),
                        (''b.md'', MDFileInfo False None ''Beta'' 3 ''.%2Fdocs%2Fsub%2Fb.md'')])
                 ''sub'' 2 ''docs%2Fsub'')])
            ''docs'' 1 ''docs'')])
       ''notes'' 0 ''.''"

definition tree_shallow :: MDFileInfo where
  "tree_shallow =
     MDFileInfo True
       (Some [(''docs'',
          MDFileInfo True
            (Some [(''a.md'', MDFileInfo False None ''Alpha'' 2 ''.%2Fdocs%2Fa.md''),
                   (''sub'',
                    MDFileInfo True
                      (Some [(''c.md'', MDFileInfo False None ''Gamma'' 3 ''.%2Fdocs%2Fsub%2Fc.md'')])
                      ''sub'' 2 ''docs%2Fsub'')])
            ''docs'' 1 ''docs''),
          (''top.md'', MDFileInfo False None ''Top'' 1 ''.%2Ftop.md'')])
       ''notes'' 0 ''.''"

definition fs_guide :: "string \<Rightarrow> md_file" where
  "fs_guide p =
     (if p = ''root/docs/guide.md'' then Opened [''# Guide'', '''', ''Some text.''] None
      else if p = ''root/README.md'' then Opened [''# Read me''] None
      else OpenFails ''no such file'')"

definition walk_guide :: "walk_call list" where
  "walk_guide =
     [Visit ''root'' ''root'' True,
      Visit ''root/README.md'' ''README.md'' False,
      Visit ''root/docs'' ''docs'' True,
      Visit ''root/docs/guide.md'' ''guide.md'' False]"

definition tree_guide :: MDFileInfo where
  "tree_guide =
     MDFileInfo True
       (Some [(''docs'',
          MDFileInfo True
            (Some [(''guide.md'', MDFileInfo False None ''Guide'' 2 ''.%2Fdocs%2Fguide.md'')])
            ''docs'' 1 ''docs'')])
       [] 0 ''.''"

definition walk_guide_here :: "walk_call list" where
  "walk_guide_here =
     [Visit ''.'' ''.'' True,
      Visit ''README.md'' ''README.md'' False,
      Visit ''docs'' ''docs'' True,
      Visit ''docs/guide.md'' ''guide.md'' False]"

definition fs_guide_here :: "string \<Rightarrow> md_file" where
  "fs_guide_here p =
     (if p = ''docs/guide.md'' then Opened [''# Guide'', '''', ''Some text.''] None
      else if p = ''README.md'' then Opened [''# Read me''] None
      else OpenFails ''no such file'')"

definition walk_denied :: "walk_call list" where
  "walk_denied =
     [Visit ''root'' ''root'' True,
      Visit ''root/docs'' ''docs'' True,
      Visit ''root/docs/guide.md'' ''guide.md'' False,
      Visit ''root/private'' ''private'' True,
      WalkError ''root/private'' ''open root/private: permission denied'',
      Visit ''root/z.md'' ''z.md'' False]"

definition fs_unreadable :: "string \<Rightarrow> md_file" where
  "fs_unreadable p =
     (if p = ''root/docs/guide.md'' then Opened [''# Guide''] None
      else if p = ''root/docs/locked.md'' then OpenFails ''open root/docs/locked.md: permission denied''
      else if p = ''root/docs/torn.md'' then Opened [''intro''] (Some ''read root/docs/torn.md: input/output error'')
      else OpenFails ''no such file'')"

definition walk_unreadable :: "walk_call list" where
  "walk_unreadable =
     [Visit ''root'' ''root'' True,
      Visit ''root/docs'' ''docs'' True,
      Visit ''root/docs/locked.md'' ''locked.md'' False,
      Visit ''root/docs/torn.md'' ''torn.md'' False,
      Visit ''root/docs/guide.md'' ''guide.md'' False]"

definition tree_unreadable :: MDFileInfo where
  "tree_unreadable =
     MDFileInfo True
       (Some [(''docs'',
          MDFileInfo True
            (Some [(''locked.md'', MDFileInfo False None [] 2 ''.%2Fdocs%2Flocked.md''),
                   (''torn.md'', MDFileInfo False None [] 2 ''.%2Fdocs%2Ftorn.md''),
                   (''guide.md'', MDFileInfo False None ''Guide'' 2 ''.%2Fdocs%2Fguide.md'')])
            ''docs'' 1 ''docs'')])
       [] 0 ''.''"




section \<open>Properties\<close>

subsection \<open>The title of a document\<close>

lemma MatchString_Nil: "\<not> MatchString []"
  by (simp add: MatchString_def FindStringSubmatch_def)

lemma MatchString_Cons:
  "MatchString (c # rest) \<longleftrightarrow>
     c = CHR ''#'' \<and> takeWhile isSpace rest \<noteq> [] \<and> CHR 0x0A \<notin> set (dropWhile isSpace rest)"
  by (simp add: MatchString_def FindStringSubmatch_def)

lemma submatch_Cons:
  "MatchString (c # rest) \<Longrightarrow> FindStringSubmatch (c # rest) ! Suc 0 = dropWhile isSpace rest"
  by (simp add: MatchString_def FindStringSubmatch_def split: if_splits)

lemma takeWhile_run: "list_all P ws \<Longrightarrow> takeWhile P (ws @ t) = ws @ takeWhile P t"
  by (induction ws) auto

lemma dropWhile_run: "list_all P ws \<Longrightarrow> dropWhile P (ws @ t) = dropWhile P t"
  by (induction ws) auto

lemma MatchString_iff:
  "MatchString line \<longleftrightarrow>
     (\<exists>ws t. line = CHR ''#'' # ws @ t \<and> ws \<noteq> [] \<and> list_all isSpace ws \<and> CHR 0x0A \<notin> set t)"
proof
  assume m: "MatchString line"
  then obtain c rest where line: "line = c # rest"
    by (cases line) (auto simp: MatchString_Nil)
  let ?ws = "takeWhile isSpace rest" and ?t = "dropWhile isSpace rest"
  from m line have "c = CHR ''#''" "?ws \<noteq> []" "CHR 0x0A \<notin> set ?t"
    by (simp_all add: MatchString_Cons)
  moreover have "list_all isSpace ?ws"
    by (simp add: list_all_iff) (meson set_takeWhileD)
  moreover have "rest = ?ws @ ?t" by simp
  ultimately show "\<exists>ws t. line = CHR ''#'' # ws @ t \<and> ws \<noteq> [] \<and> list_all isSpace ws \<and> CHR 0x0A \<notin> set t"
    using line by blast
next
  assume "\<exists>ws t. line = CHR ''#'' # ws @ t \<and> ws \<noteq> [] \<and> list_all isSpace ws \<and> CHR 0x0A \<notin> set t"
  then obtain ws t where line: "line = CHR ''#'' # ws @ t" and ws: "ws \<noteq> []" "list_all isSpace ws"
    and t: "CHR 0x0A \<notin> set t" by blast
  have "set (dropWhile isSpace t) \<subseteq> set t" by (simp add: set_dropWhileD subsetI)
  with line ws t show "MatchString line"
    by (auto simp: MatchString_Cons takeWhile_run dropWhile_run)
qed

lemma submatch_heading:
  assumes "ws \<noteq> []" "list_all isSpace ws" "t = [] \<or> \<not> isSpace (hd t)" "CHR 0x0A \<notin> set t"
  shows "MatchString (CHR ''#'' # ws @ t) \<and> FindStringSubmatch (CHR ''#'' # ws @ t) ! 1 = t"
proof -
  have m: "MatchString (CHR ''#'' # ws @ t)"
    using assms by (subst MatchString_iff) blast
  have "dropWhile isSpace t = t"
    using assms(3) by (cases t) auto
  with m assms(2) show ?thesis
    by (simp add: submatch_Cons dropWhile_run)
qed

lemma scan_loop_skip:
  "list_all (\<lambda>l. \<not> MatchString l) pre \<Longrightarrow> scan_loop (pre @ more) = scan_loop more"
  by (induction pre) auto

lemma scan_loop_none: "list_all (\<lambda>l. \<not> MatchString l) ls \<Longrightarrow> scan_loop ls = []"
  using scan_loop_skip [of ls "[]"] by simp





text \<open>
  Claim C10. When the first line that matches the pattern is \<^verbatim>\<open>#\<close> followed by white space
  only, \<open>GetMDTitle\<close> returns the empty string whatever lines follow, a later level-1
  heading with a text among them: the same result as for a document with no heading.
\<close>

theorem GetMDTitle_empty_heading:
  assumes "fs p = Opened (pre @ (CHR ''#'' # ws) # post) e"
    and "list_all (\<lambda>l. \<not> MatchString l) pre"
    and "ws \<noteq> []" and "list_all isSpace ws"
  shows "GetMDTitle fs p = [] \<and>
         (fs' p' = Opened ls e' \<and> list_all (\<lambda>l. \<not> MatchString l) ls \<longrightarrow>
            GetMDTitle fs p = GetMDTitle fs' p')"
proof -
  from assms(3,4) have "MatchString (CHR ''#'' # ws @ [])"
    and "FindStringSubmatch (CHR ''#'' # ws @ []) ! 1 = []"
    using submatch_heading [of ws "[]"] by simp_all
  with assms(1,2) have "GetMDTitle fs p = []"
    by (simp add: GetMDTitle_def scan_loop_skip)
  then show ?thesis
    by (simp add: GetMDTitle_def scan_loop_none)
qed

theorem GetMDTitle_empty_heading_witness:
  "GetMDTitle fs_empty_heading ''a.md'' = [] \<and>
   GetMDTitle fs_empty_heading ''a.md'' = GetMDTitle fs_empty_heading ''b.md''"
proof -
  have "fs_empty_heading ''a.md'' = Opened ([''intro''] @ (CHR ''#'' # '' '') # [''# Real Title'']) None"
    by (simp add: fs_empty_heading_def)
  moreover have "list_all (\<lambda>l. \<not> MatchString l) [''intro'']"
    by (simp add: MatchString_Cons)
  moreover have "'' '' \<noteq> []" and "list_all isSpace '' ''"
    by (simp_all add: isSpace_def)
  moreover have "fs_empty_heading ''b.md'' = Opened [''intro'', ''text''] None \<and>
      list_all (\<lambda>l. \<not> MatchString l) [''intro'', ''text'']"
    by (simp add: fs_empty_heading_def MatchString_Cons)
  ultimately show ?thesis
    using GetMDTitle_empty_heading [of fs_empty_heading "''a.md''" "[''intro'']" "'' ''"
        "[''# Real Title'']" None fs_empty_heading "''b.md''" "[''intro'', ''text'']" None]
    by blast
qed

subsection \<open>The outline\<close>

lemma append_all_None: "append_all None rs = None"
  by (cases rs) auto

lemma append_all_those:
  "append_all (Some h) rs = map_option (\<lambda>ss. h @ concat ss) (those rs)"
proof (induction rs arbitrary: h)
  case Nil
  show ?case by simp
next
  case (Cons r rs)
  show ?case
  proof (cases r)
    case None
    then show ?thesis by simp
  next
    case (Some s)
    with Cons.IH [of "h @ s"] show ?thesis
      by (cases "those rs") simp_all
  qed
qed

lemma CreateTocTree_those:
  "CreateTocTree md indent sortAsc =
     (case toc_head md indent of
        None \<Rightarrow> None
      | Some h \<Rightarrow>
          map_option (\<lambda>ss. h @ concat ss)
            (those (map (\<lambda>key. CreateTocTree (map_index (Children md) key) indent sortAsc)
                        (sortedKeys sortAsc (MapKeys (Children md))))))"
  by (subst CreateTocTree.simps)
     (simp add: append_all_None append_all_those split: option.split)

lemma CreateTocTree_node:
  "CreateTocTree (MDFileInfo d ch t l p) indent sortAsc =
     append_all (toc_head (MDFileInfo d ch t l p) indent)
       (map (\<lambda>key. CreateTocTree (map_index ch key) indent sortAsc)
            (sortedKeys sortAsc (MapKeys ch)))"
  by (subst CreateTocTree.simps) simp

lemmas toc_eval =
  CreateTocTree_node toc_head_def sortedKeys_def MapKeys_def map_index_def Repeat_def

lemma distinct_MapKeys: "distinct (MapKeys m)"
  by (simp add: MapKeys_def split: option.split)

lemma set_sortedKeys: "set (sortedKeys sortAsc ks) = set ks"
  by (simp add: sortedKeys_def)

lemma sortedKeys_ascending: "distinct ks \<Longrightarrow> sorted_wrt (<) (sortedKeys True ks)"
  by (simp add: sortedKeys_def strict_sorted_iff)

lemma sortedKeys_descending: "distinct ks \<Longrightarrow> sorted_wrt (>) (sortedKeys False ks)"
  by (simp add: sortedKeys_def sorted_wrt_rev strict_sorted_iff)

text \<open>
  Claim C5. The output of a node is what the node itself contributes, followed by the
  outputs of its children in the order of their keys in the map: ascending in the order of
  Go's strings when the flag is true, descending when it is false. The keys are the names
  of the entries, not the titles: for the siblings \<^verbatim>\<open>a.md\<close> and \<^verbatim>\<open>b.md\<close>, \<^verbatim>\<open>a.md\<close> comes first
  when the flag is true, also when its title is the greater one, and \<^verbatim>\<open>b.md\<close> comes first
  when the flag is false.
\<close>

theorem CreateTocTree_children_order:
  "(\<exists>ks. set ks = set (MapKeys (Children md)) \<and>
         (if sortAsc then sorted_wrt (<) ks else sorted_wrt (>) ks) \<and>
         CreateTocTree md indent sortAsc =
           (case toc_head md indent of
              None \<Rightarrow> None
            | Some h \<Rightarrow>
                map_option (\<lambda>ss. h @ concat ss)
                  (those (map (\<lambda>key. CreateTocTree (map_index (Children md) key) indent sortAsc) ks))))
   \<and> CreateTocTree tree_siblings ''  '' True =
       Some ''# notes\<newline>\<newline>## docs\<newline>\<newline>- [Alpha](.%2Fdocs%2Fa.md)\<newline>- [Beta](.%2Fdocs%2Fb.md)\<newline>''
   \<and> CreateTocTree tree_siblings ''  '' False =
       Some ''# notes\<newline>\<newline>## docs\<newline>\<newline>- [Beta](.%2Fdocs%2Fb.md)\<newline>- [Alpha](.%2Fdocs%2Fa.md)\<newline>''
   \<and> CreateTocTree tree_titles ''  '' True =
       Some ''# notes\<newline>\<newline>## docs\<newline>\<newline>- [Zulu](.%2Fdocs%2Fa.md)\<newline>- [Alpha](.%2Fdocs%2Fb.md)\<newline>''"
proof -
  let ?ks = "sortedKeys sortAsc (MapKeys (Children md))"
  have "set ?ks = set (MapKeys (Children md))" by (rule set_sortedKeys)
  moreover have "if sortAsc then sorted_wrt (<) ?ks else sorted_wrt (>) ?ks"
    using sortedKeys_ascending [OF distinct_MapKeys] sortedKeys_descending [OF distinct_MapKeys]
    by (cases sortAsc) simp_all
  ultimately have general: "\<exists>ks. set ks = set (MapKeys (Children md)) \<and>
         (if sortAsc then sorted_wrt (<) ks else sorted_wrt (>) ks) \<and>
         CreateTocTree md indent sortAsc =
           (case toc_head md indent of
              None \<Rightarrow> None
            | Some h \<Rightarrow>
                map_option (\<lambda>ss. h @ concat ss)
                  (those (map (\<lambda>key. CreateTocTree (map_index (Children md) key) indent sortAsc) ks)))"
    using CreateTocTree_those [of md indent sortAsc] by blast
  have asc: "CreateTocTree tree_siblings ''  '' True =
       Some ''# notes\<newline>\<newline>## docs\<newline>\<newline>- [Alpha](.%2Fdocs%2Fa.md)\<newline>- [Beta](.%2Fdocs%2Fb.md)\<newline>''"
    by (simp add: tree_siblings_def toc_eval)
  have desc: "CreateTocTree tree_siblings ''  '' False =
       Some ''# notes\<newline>\<newline>## docs\<newline>\<newline>- [Beta](.%2Fdocs%2Fb.md)\<newline>- [Alpha](.%2Fdocs%2Fa.md)\<newline>''"
    by (simp add: tree_siblings_def toc_eval)
  have titles: "CreateTocTree tree_titles ''  '' True =
       Some ''# notes\<newline>\<newline>## docs\<newline>\<newline>- [Zulu](.%2Fdocs%2Fa.md)\<newline>- [Alpha](.%2Fdocs%2Fb.md)\<newline>''"
    by (simp add: tree_titles_def toc_eval)
  from general asc desc titles show ?thesis by blast
qed

lemma toc_head_list_item:
  "2 \<le> Level md \<Longrightarrow>
   toc_head md indent =
     Some (concat (replicate (nat (Level md - 2)) indent) @
           (if IsDir md then ''- '' @ Title md @ ''\<newline>''
            else ''- ['' @ Title md @ '']('' @ Path md @ '')\<newline>''))"
  by (simp add: toc_head_def Repeat_def)

text \<open>
  Claim C8. A node of level 2 or more contributes one list item: the indent \<open>Level - 2\<close>
  times, then \<^verbatim>\<open>- <title>\<close> for a directory and \<^verbatim>\<open>- [<title>](<path>)\<close> for a document,
  then a line feed; the outputs of its children follow. A document with an empty title
  gives \<^verbatim>\<open>- [](<path>)\<close>. The item is one line when the indent, the title and the path
  have no line feed.
\<close>

theorem CreateTocTree_list_item:
  assumes "2 \<le> Level md"
  shows "CreateTocTree md indent sortAsc =
           map_option
             (\<lambda>ss. concat (replicate (nat (Level md - 2)) indent) @
                    (if IsDir md then ''- '' @ Title md @ ''\<newline>''
                     else ''- ['' @ Title md @ '']('' @ Path md @ '')\<newline>'') @
                    concat ss)
             (those (map (\<lambda>key. CreateTocTree (map_index (Children md) key) indent sortAsc)
                         (sortedKeys sortAsc (MapKeys (Children md)))))
         \<and> (MapKeys (Children md) = [] \<and> IsDir md \<longrightarrow>
              CreateTocTree md indent sortAsc =
                Some (concat (replicate (nat (Level md - 2)) indent) @ ''- '' @ Title md @ ''\<newline>''))
         \<and> (MapKeys (Children md) = [] \<and> \<not> IsDir md \<longrightarrow>
              CreateTocTree md indent sortAsc =
                Some (concat (replicate (nat (Level md - 2)) indent) @
                      ''- ['' @ Title md @ '']('' @ Path md @ '')\<newline>''))
         \<and> (MapKeys (Children md) = [] \<and> \<not> IsDir md \<and> Title md = [] \<longrightarrow>
              CreateTocTree md indent sortAsc =
                Some (concat (replicate (nat (Level md - 2)) indent) @
                      ''- []('' @ Path md @ '')\<newline>''))
         \<and> (CHR 0x0A \<notin> set indent \<union> set (Title md) \<union> set (Path md) \<longrightarrow>
              (\<exists>l. toc_head md indent = Some (l @ ''\<newline>'') \<and> CHR 0x0A \<notin> set l))"
proof -
  have general: "CreateTocTree md indent sortAsc =
           map_option
             (\<lambda>ss. concat (replicate (nat (Level md - 2)) indent) @
                    (if IsDir md then ''- '' @ Title md @ ''\<newline>''
                     else ''- ['' @ Title md @ '']('' @ Path md @ '')\<newline>'') @
                    concat ss)
             (those (map (\<lambda>key. CreateTocTree (map_index (Children md) key) indent sortAsc)
                         (sortedKeys sortAsc (MapKeys (Children md)))))"
    by (subst CreateTocTree_those) (simp add: toc_head_list_item [OF assms])
  have leaf: "sortedKeys sortAsc [] = []"
    by (simp add: sortedKeys_def)
  have one_line: "\<exists>l. toc_head md indent = Some (l @ ''\<newline>'') \<and> CHR 0x0A \<notin> set l"
    if "CHR 0x0A \<notin> set indent \<union> set (Title md) \<union> set (Path md)"
  proof (cases "IsDir md")
    case True
    with that show ?thesis
      by (intro exI [of _ "concat (replicate (nat (Level md - 2)) indent) @ ''- '' @ Title md"])
         (auto simp: toc_head_list_item [OF assms])
  next
    case False
    with that show ?thesis
      by (intro exI [of _ "concat (replicate (nat (Level md - 2)) indent) @
                           ''- ['' @ Title md @ '']('' @ Path md @ '')''"])
         (auto simp: toc_head_list_item [OF assms])
  qed
  show ?thesis
    using general one_line by (auto simp: leaf)
qed

theorem CreateTocTree_list_item_witness:
  "CreateTocTree node_guide ''  '' True = Some ''  - [Guide](.%2Fdocs%2Fsub%2Fguide.md)\<newline>''
   \<and> CreateTocTree node_untitled ''  '' True = Some ''- [](.%2Fdocs%2Fdraft.md)\<newline>''
   \<and> CreateTocTree node_sub ''  '' True =
       Some ''- sub\<newline>  - [Guide](.%2Fdocs%2Fsub%2Fguide.md)\<newline>''"
proof -
  have lg: "2 \<le> Level node_guide" by (simp add: node_guide_def)
  have "MapKeys (Children node_guide) = [] \<and> \<not> IsDir node_guide"
    by (simp add: node_guide_def MapKeys_def)
  with CreateTocTree_list_item [OF lg, of "''  ''" True, THEN conjunct2, THEN conjunct2, THEN conjunct1]
  have g: "CreateTocTree node_guide ''  '' True = Some ''  - [Guide](.%2Fdocs%2Fsub%2Fguide.md)\<newline>''"
    by (simp add: node_guide_def)
  have lu: "2 \<le> Level node_untitled" by (simp add: node_untitled_def)
  have "MapKeys (Children node_untitled) = [] \<and> \<not> IsDir node_untitled \<and> Title node_untitled = []"
    by (simp add: node_untitled_def MapKeys_def)
  with CreateTocTree_list_item [OF lu, of "''  ''" True, THEN conjunct2, THEN conjunct2, THEN conjunct2]
  have u: "CreateTocTree node_untitled ''  '' True = Some ''- [](.%2Fdocs%2Fdraft.md)\<newline>''"
    by (simp add: node_untitled_def)
  have ls: "2 \<le> Level node_sub" by (simp add: node_sub_def)
  from CreateTocTree_list_item [OF ls, of "''  ''" True, THEN conjunct1] g
  have s: "CreateTocTree node_sub ''  '' True =
       Some ''- sub\<newline>  - [Guide](.%2Fdocs%2Fsub%2Fguide.md)\<newline>''"
    by (simp add: node_sub_def sortedKeys_def MapKeys_def map_index_def)
  from g u s show ?thesis by blast
qed

lemma nodes_node:
  "nodes (MDFileInfo d ch t l p) =
     MDFileInfo d ch t l p # concat (map (\<lambda>key. nodes (map_index ch key)) (MapKeys ch))"
  by (subst nodes.simps) simp

lemma CreateTocTree_groupings:
  "CreateTocTree md indent True =
     append_all (toc_head md indent) (map (\<lambda>c. CreateTocTree c indent True) (groupings md))"
  by (subst CreateTocTree.simps) (simp add: groupings_def comp_def)

lemma CreateTocTree_rev_groupings:
  "CreateTocTree md indent False =
     append_all (toc_head md indent) (rev (map (\<lambda>c. CreateTocTree c indent False) (groupings md)))"
  by (subst CreateTocTree.simps) (simp add: groupings_def sortedKeys_def rev_map comp_def)

lemma few_children_unfold:
  "few_children g \<longleftrightarrow>
     length (MapKeys (Children g)) \<le> 1 \<and>
     (\<forall>key \<in> set (MapKeys (Children g)). few_children (map_index (Children g) key))"
  unfolding few_children_def
  by (subst nodes.simps) (auto simp: list_all_iff)

lemma sortedKeys_short: "length ks \<le> 1 \<Longrightarrow> sortedKeys a ks = ks"
  by (cases ks) (auto simp: sortedKeys_def)

lemma few_children_order:
  "few_children g \<Longrightarrow> CreateTocTree g indent True = CreateTocTree g indent False"
proof (induction g indent True rule: CreateTocTree.induct)
  case (1 md indent)
  from "1.prems" have short: "length (MapKeys (Children md)) \<le> 1"
    and below: "\<And>key. key \<in> set (MapKeys (Children md)) \<Longrightarrow> few_children (map_index (Children md) key)"
    using few_children_unfold [of md] by blast+
  have eq: "map (\<lambda>key. CreateTocTree (map_index (Children md) key) indent True) (MapKeys (Children md))
      = map (\<lambda>key. CreateTocTree (map_index (Children md) key) indent False) (MapKeys (Children md))"
    using "1.hyps" below by (intro map_cong) (simp_all add: sortedKeys_short [OF short])
  show ?case
    by (subst CreateTocTree.simps, subst (2) CreateTocTree.simps)
       (simp only: sortedKeys_short [OF short] eq)
qed

lemma CreateTocTree_two_levels:
  "CreateTocTree md indent True =
     append_all (toc_head md indent)
       (map (\<lambda>c. append_all (toc_head c indent)
                    (map (\<lambda>g. CreateTocTree g indent True) (groupings c)))
            (groupings md))"
  by (subst CreateTocTree_groupings, subst CreateTocTree_groupings) simp

text \<open>
  Claim C3, as stated: the rendering with the flag true, with its top-level and its
  second-level groupings reversed, is the rendering with the flag false. It fails for
  a directory of level 2 with two documents: \<open>CreateTocTree\<close> with the flag false reverses
  the children at every level, the third too.
\<close>

theorem reversed_groupings_counterexample:
  "reversed_groupings tree_deep ''  '' =
     Some ''# notes\<newline>\<newline>## docs\<newline>\<newline>- sub\<newline>  - [Alpha](.%2Fdocs%2Fsub%2Fa.md)\<newline>  - [Beta](.%2Fdocs%2Fsub%2Fb.md)\<newline>''
   \<and> CreateTocTree tree_deep ''  '' False =
     Some ''# notes\<newline>\<newline>## docs\<newline>\<newline>- sub\<newline>  - [Beta](.%2Fdocs%2Fsub%2Fb.md)\<newline>  - [Alpha](.%2Fdocs%2Fsub%2Fa.md)\<newline>''
   \<and> reversed_groupings tree_deep ''  '' \<noteq> CreateTocTree tree_deep ''  '' False"
  by (simp add: tree_deep_def reversed_groupings_def groupings_def toc_eval)

text \<open>
  Claim C3, amended: the two renderings agree when no node of level 2 or more has more
  than one child.
\<close>

theorem reversed_groupings_descending:
  assumes "list_all (\<lambda>c. list_all few_children (groupings c)) (groupings md)"
  shows "reversed_groupings md indent = CreateTocTree md indent False"
proof -
  have inner: "append_all (toc_head c indent) (rev (map (\<lambda>g. CreateTocTree g indent True) (groupings c)))
             = CreateTocTree c indent False" if "c \<in> set (groupings md)" for c
  proof -
    from assms that have "\<And>g. g \<in> set (groupings c) \<Longrightarrow> few_children g"
      by (simp add: list_all_iff)
    then have eq: "map (\<lambda>g. CreateTocTree g indent True) (groupings c)
             = map (\<lambda>g. CreateTocTree g indent False) (groupings c)"
      by (intro map_cong) (simp_all add: few_children_order)
    show ?thesis
      by (subst CreateTocTree_rev_groupings) (simp only: eq)
  qed
  then have "map (\<lambda>c. append_all (toc_head c indent)
                         (rev (map (\<lambda>g. CreateTocTree g indent True) (groupings c)))) (groupings md)
           = map (\<lambda>c. CreateTocTree c indent False) (groupings md)"
    by (intro map_cong) simp_all
  then show ?thesis
    unfolding reversed_groupings_def
    by (subst CreateTocTree_rev_groupings) (simp only:)
qed

lemma map_index_Cons:
  "map_index (Some ((k, v) # kvs)) key = (if key = k then v else map_index (Some kvs) key)"
  by (simp add: map_index_def)

lemma few_children_leaf: "few_children (MDFileInfo d None t l p)"
  by (simp add: few_children_def nodes_node MapKeys_def)

lemma few_children_single:
  "few_children (MDFileInfo d (Some [(k, v)]) t l p) = few_children v"
  by (simp add: few_children_def nodes_node MapKeys_def map_index_Cons)

theorem reversed_groupings_descending_witness:
  "reversed_groupings tree_shallow ''  '' = CreateTocTree tree_shallow ''  '' False
   \<and> CreateTocTree tree_shallow ''  '' False =
       Some ''# notes\<newline>\<newline>## [Top](.%2Ftop.md)\<newline>\<newline>\<newline>## docs\<newline>\<newline>- sub\<newline>  - [Gamma](.%2Fdocs%2Fsub%2Fc.md)\<newline>- [Alpha](.%2Fdocs%2Fa.md)\<newline>''
   \<and> CreateTocTree tree_shallow ''  '' True \<noteq> CreateTocTree tree_shallow ''  '' False"
proof -
  have "list_all (\<lambda>c. list_all few_children (groupings c)) (groupings tree_shallow)"
    by (simp add: tree_shallow_def groupings_def sortedKeys_def MapKeys_def map_index_Cons
        few_children_leaf few_children_single)
  from reversed_groupings_descending [OF this, of "''  ''"] show ?thesis
    by (simp add: tree_shallow_def toc_eval)
qed

subsection \<open>The tree\<close>

lemma map_assign_Some:
  "map_assign m k v = Some m' \<longleftrightarrow> (\<exists>kvs. m = Some kvs \<and> m' = Some (AList.update k v kvs))"
  by (auto simp: map_assign_def split: option.splits)

lemma MapKeys_assign:
  "map_assign m k v = Some m' \<Longrightarrow> set (MapKeys m') = insert k (set (MapKeys m))"
proof -
  assume "map_assign m k v = Some m'"
  then obtain kvs where m: "m = Some kvs" "m' = Some (AList.update k v kvs)"
    by (auto simp: map_assign_Some)
  have "fst ` set (AList.update k v kvs) = insert k (fst ` set kvs)"
    using dom_update [of k v kvs] by (simp add: dom_map_of_conv_image_fst)
  with m show ?thesis by (simp add: MapKeys_def)
qed

lemma map_index_assign:
  "map_assign m k v = Some m' \<Longrightarrow> map_index m' k' = (if k' = k then v else map_index m k')"
  by (auto simp: map_assign_Some map_index_def update_conv')

lemma has_key_MapKeys: "has_key m k \<longleftrightarrow> k \<in> set (MapKeys m)"
  by (auto simp: has_key_def MapKeys_def simp flip: dom_map_of_conv_image_fst split: option.splits)

lemma set_Children_sel [simp]:
  "Children (set_Children p m) = m" "Level (set_Children p m) = Level p"
  "IsDir (set_Children p m) = IsDir p" "Title (set_Children p m) = Title p"
  "Path (set_Children p m) = Path p"
  by (simp_all add: set_Children_def)

lemma set_Children_twice [simp]: "set_Children (set_Children p m) m' = set_Children p m'"
  by (simp add: set_Children_def)

lemma levels_ok_unfold:
  "levels_ok md \<longleftrightarrow>
     (\<forall>key \<in> set (MapKeys (Children md)).
        Level (map_index (Children md) key) = Level md + 1 \<and> levels_ok (map_index (Children md) key))"
  unfolding levels_ok_def
  by (subst nodes.simps) (auto simp: list_all_iff)

lemma levels_ok_assign:
  assumes "levels_ok p" and "map_assign (Children p) k v = Some m'"
    and "Level v = Level p + 1" and "levels_ok v"
  shows "levels_ok (set_Children p m')"
proof -
  have "Level (map_index m' key) = Level p + 1 \<and> levels_ok (map_index m' key)"
    if "key \<in> set (MapKeys m')" for key
  proof (cases "key = k")
    case True
    with assms(2-4) show ?thesis by (simp add: map_index_assign)
  next
    case False
    with that assms(2) have "key \<in> set (MapKeys (Children p))"
      by (simp add: MapKeys_assign)
    with assms(1) False assms(2) show ?thesis
      using levels_ok_unfold [of p] by (simp add: map_index_assign)
  qed
  then show ?thesis
    by (subst levels_ok_unfold) simp
qed

lemma levels_ok_leaf: "MapKeys (Children md) = [] \<Longrightarrow> levels_ok md"
  by (subst levels_ok_unfold) simp

lemma insert_doc_levels:
  "levels_ok p \<Longrightarrow> insert_doc p dirs name title path = Some p' \<Longrightarrow>
   levels_ok p' \<and> Level p' = Level p \<and> IsDir p' = IsDir p"
proof (induction dirs arbitrary: p p')
  case Nil
  from Nil.prems(2) obtain m' where
    m': "map_assign (Children p) name (MDFileInfo False None title (Level p + 1) path) = Some m'"
    and p': "p' = set_Children p m'"
    by auto
  have "levels_ok (MDFileInfo False None title (Level p + 1) path)"
    by (rule levels_ok_leaf) (simp add: MapKeys_def)
  with Nil.prems(1) m' have "levels_ok (set_Children p m')"
    by (intro levels_ok_assign [where k = name and v = "MDFileInfo False None title (Level p + 1) path"]) simp_all
  with p' show ?case by simp
next
  case (Cons d dirs)
  show ?case
  proof (cases "d = ''.''")
    case True
    with Cons show ?thesis by simp
  next
    case False
    let ?new = "MDFileInfo True (Some []) d (Level p + 1) (PathEscape (Join (Path p) d))"
    from Cons.prems(2) False obtain m child m' where
      m: "(if has_key (Children p) d then Some (Children p) else map_assign (Children p) d ?new) = Some m"
      and child: "insert_doc (map_index m d) dirs name title path = Some child"
      and m': "map_assign m d child = Some m'" and p': "p' = set_Children p m'"
      by (auto split: option.splits)
    have p1: "levels_ok (set_Children p m) \<and> Level (map_index m d) = Level p + 1 \<and> levels_ok (map_index m d)"
    proof (cases "has_key (Children p) d")
      case True
      with m have "m = Children p" by simp
      moreover from True have "d \<in> set (MapKeys (Children p))" by (simp add: has_key_MapKeys)
      moreover have "set_Children p (Children p) = p" by (simp add: set_Children_def)
      ultimately show ?thesis
        using Cons.prems(1) levels_ok_unfold [of p] by simp
    next
      case no: False
      with m have a: "map_assign (Children p) d ?new = Some m" by simp
      have "levels_ok ?new" by (rule levels_ok_leaf) (simp add: MapKeys_def)
      with Cons.prems(1) a have "levels_ok (set_Children p m)"
        by (intro levels_ok_assign [where k = d and v = ?new]) simp_all
      with a show ?thesis
        using \<open>levels_ok ?new\<close> by (simp add: map_index_assign)
    qed
    with Cons.IH [OF _ child] have c: "levels_ok child" "Level child = Level p + 1"
      by simp_all
    from p1 m' c have "levels_ok (set_Children (set_Children p m) m')"
      using levels_ok_assign [of "set_Children p m" d child m'] by simp
    with p' show ?thesis by simp
  qed
qed

lemma walkFn_levels:
  "levels_ok root \<Longrightarrow> walkFn dirPath fs root c = Some (root', err) \<Longrightarrow>
   levels_ok root' \<and> Level root' = Level root \<and> IsDir root' = IsDir root"
  by (auto simp: walkFn_def Let_def split: walk_call.splits if_splits option.splits
           dest: insert_doc_levels)

lemma Walk_levels:
  "levels_ok root \<Longrightarrow> Walk dirPath fs root calls = Some (root', err) \<Longrightarrow>
   levels_ok root' \<and> Level root' = Level root \<and> IsDir root' = IsDir root"
proof (induction calls arbitrary: root)
  case Nil
  then show ?case by simp
next
  case (Cons c calls)
  from Cons.prems(2) obtain r e where step: "walkFn dirPath fs root c = Some (r, e)"
    by (auto split: option.splits)
  with Cons.prems(1) have r: "levels_ok r" "Level r = Level root" "IsDir r = IsDir root"
    using walkFn_levels by blast+
  show ?case
  proof (cases e)
    case None
    with step Cons.prems(2) have "Walk dirPath fs r calls = Some (root', err)" by simp
    with Cons.IH [OF r(1)] r show ?thesis by simp
  next
    case (Some x)
    with step Cons.prems(2) r show ?thesis by simp
  qed
qed

text \<open>
  Claim C7. Whatever \<open>ListMDFiles\<close> returns, with an error or without one: the root has
  level 0 and is a directory, and the level of every child, a directory or a document, at
  every depth, is the level of its parent plus 1.
\<close>

theorem ListMDFiles_levels:
  assumes "ListMDFiles dirPath fs calls = Some (root, err)"
  shows "Level root = 0 \<and> IsDir root \<and> levels_ok root"
proof -
  have "levels_ok (MDFileInfo True (Some []) [] 0 ''.'')"
    by (rule levels_ok_leaf) (simp add: MapKeys_def)
  with assms show ?thesis
    unfolding ListMDFiles_def using Walk_levels by fastforce
qed

lemmas walk_eval =
  ListMDFiles_def walkFn_def Let_def Ext_def Dir_def dir_part_def Clean_def Join_def
  PathEscape_def shouldEscape_def upperhex_def GetMDTitle_def MatchString_def
  FindStringSubmatch_def isSpace_def has_key_def map_assign_def map_index_def set_Children_def

lemma ListMDFiles_guide: "ListMDFiles ''root'' fs_guide walk_guide = Some (tree_guide, None)"
  by (simp add: walk_guide_def fs_guide_def tree_guide_def walk_eval)

theorem ListMDFiles_levels_witness:
  "ListMDFiles ''root'' fs_guide walk_guide = Some (tree_guide, None)
   \<and> Level tree_guide = 0 \<and> IsDir tree_guide \<and> levels_ok tree_guide"
  using ListMDFiles_levels [OF ListMDFiles_guide] ListMDFiles_guide by simp

lemma upperhex_no_slash: "n < 16 \<Longrightarrow> upperhex n \<noteq> CHR ''/''"
proof -
  assume "n < 16"
  then have "upperhex n \<in> set ''0123456789ABCDEF''"
    unfolding upperhex_def by (intro nth_mem) simp
  then show ?thesis by auto
qed

lemma of_char_bound: "(of_char c :: nat) < 256"
proof -
  have "(of_char c :: nat) mod 256 < 256" by simp
  then show ?thesis by (simp only: of_char_mod_256)
qed

lemma shouldEscape_slash: "shouldEscape (CHR ''/'')"
  by (simp add: shouldEscape_def)

lemma escape_no_slash:
  "CHR ''/'' \<notin> set (if shouldEscape c
           then [CHR ''%'', upperhex (of_char c div 16), upperhex (of_char c mod 16)]
           else [c])"
proof (cases "shouldEscape c")
  case True
  have "(of_char c :: nat) div 16 < 16" using of_char_bound [of c] by arith
  then have hi: "upperhex (of_char c div 16) \<noteq> CHR ''/''" by (rule upperhex_no_slash)
  have "(of_char c :: nat) mod 16 < 16" by simp
  then have lo: "upperhex (of_char c mod 16) \<noteq> CHR ''/''" by (rule upperhex_no_slash)
  from True hi lo show ?thesis by simp
next
  case False
  then have "c \<noteq> CHR ''/''" using shouldEscape_slash by blast
  with False show ?thesis by simp
qed

lemma PathEscape_no_slash: "CHR ''/'' \<notin> set (PathEscape s)"
  unfolding PathEscape_def
proof (induction s)
  case Nil
  show ?case by simp
next
  case (Cons c s)
  from Cons escape_no_slash [of c] show ?case
    by (simp only: list.map concat.simps set_append Un_iff) blast
qed

text \<open>
  Claim C1 says that the link target of a document starts with \<^verbatim>\<open>./\<close> and keeps its
  separators. For a root directory \<^verbatim>\<open>root\<close> with \<^verbatim>\<open>README.md\<close> and \<^verbatim>\<open>docs/guide.md\<close> the
  program writes the list item \<^verbatim>\<open>- [Guide](.%2Fdocs%2Fguide.md)\<close>; scanned as \<^verbatim>\<open>.\<close>, the
  same directory gives the target \<^verbatim>\<open>docs%2Fguide.md\<close>. No result of \<open>PathEscape\<close> has a
  separator in it.
\<close>

theorem ListMDFiles_link_target:
  "ListMDFiles ''root'' fs_guide walk_guide = Some (tree_guide, None)
   \<and> CreateTocTree tree_guide ''  '' True =
       Some ''# \<newline>\<newline>## docs\<newline>\<newline>- [Guide](.%2Fdocs%2Fguide.md)\<newline>''
   \<and> ListMDFiles ''.'' fs_guide_here walk_guide_here =
       Some (MDFileInfo True
               (Some [(''docs'',
                  MDFileInfo True
                    (Some [(''guide.md'', MDFileInfo False None ''Guide'' 2 ''docs%2Fguide.md'')])
                    ''docs'' 1 ''docs'')])
               [] 0 ''.'', None)
   \<and> CHR ''/'' \<notin> set (PathEscape relPath)"
proof -
  have "CreateTocTree tree_guide ''  '' True =
       Some ''# \<newline>\<newline>## docs\<newline>\<newline>- [Guide](.%2Fdocs%2Fguide.md)\<newline>''"
    by (simp add: tree_guide_def toc_eval)
  moreover have "ListMDFiles ''.'' fs_guide_here walk_guide_here =
       Some (MDFileInfo True
               (Some [(''docs'',
                  MDFileInfo True
                    (Some [(''guide.md'', MDFileInfo False None ''Guide'' 2 ''docs%2Fguide.md'')])
                    ''docs'' 1 ''docs'')])
               [] 0 ''.'', None)"
    by (simp add: walk_guide_here_def fs_guide_here_def walk_eval)
  ultimately show ?thesis
    using ListMDFiles_guide PathEscape_no_slash by simp
qed

lemma Walk_append:
  "Walk dirPath fs root (pre @ rest) =
     (case Walk dirPath fs root pre of
        None \<Rightarrow> None
      | Some (r, None) \<Rightarrow> Walk dirPath fs r rest
      | Some (r, Some e) \<Rightarrow> Some (r, Some e))"
  by (induction pre arbitrary: root) (auto split: option.splits)

lemma Walk_no_error:
  "list_all (\<lambda>c. \<not> is_error c) pre \<Longrightarrow> Walk dirPath fs root pre = Some (r, e) \<Longrightarrow> e = None"
proof (induction pre arbitrary: root)
  case Nil
  then show ?case by simp
next
  case (Cons c pre)
  then show ?case
    by (cases c) (auto simp: is_error_def walkFn_def Let_def split: option.splits if_splits)
qed

text \<open>
  Claim C2, as stated: no partial tree is returned on an error. For a walk that fails at
  \<^verbatim>\<open>root/private\<close> after it has visited \<^verbatim>\<open>root/docs/guide.md\<close>, \<open>ListMDFiles\<close> returns the
  error and, with it, the root whose tree has that document.
\<close>

theorem ListMDFiles_error_counterexample:
  "ListMDFiles ''root'' fs_guide walk_denied =
     Some (tree_guide, Some ''open root/private: permission denied'')
   \<and> nodes tree_guide \<noteq> [MDFileInfo True (Some []) [] 0 ''.'']
   \<and> CreateTocTree tree_guide ''  '' True =
       Some ''# \<newline>\<newline>## docs\<newline>\<newline>- [Guide](.%2Fdocs%2Fguide.md)\<newline>''"
  by (simp add: walk_denied_def fs_guide_def tree_guide_def walk_eval toc_eval nodes_node)

text \<open>
  Claim C2, amended: \<open>ListMDFiles\<close> stops at the first error of the walk and returns it,
  together with the root as the entries before the error have left it; no entry after
  the error is visited.
\<close>

theorem ListMDFiles_first_error:
  assumes "list_all (\<lambda>c. \<not> is_error c) pre"
  shows "ListMDFiles dirPath fs (pre @ WalkError path err # post) =
           (case ListMDFiles dirPath fs pre of
              None \<Rightarrow> None
            | Some (root, e) \<Rightarrow> Some (root, Some err))"
proof (cases "Walk dirPath fs (MDFileInfo True (Some []) [] 0 ''.'') pre")
  case None
  then show ?thesis by (simp add: ListMDFiles_def Walk_append)
next
  case (Some res)
  obtain r e where res: "res = (r, e)" by (cases res)
  with Some assms have "e = None" using Walk_no_error by blast
  with Some res show ?thesis
    by (simp add: ListMDFiles_def Walk_append walkFn_def)
qed

theorem ListMDFiles_first_error_witness:
  "ListMDFiles ''root'' fs_guide walk_denied =
     Some (tree_guide, Some ''open root/private: permission denied'')"
proof -
  have split: "walk_denied = take 4 walk_denied @
      WalkError ''root/private'' ''open root/private: permission denied'' # [Visit ''root/z.md'' ''z.md'' False]"
    by (simp add: walk_denied_def)
  have pre: "list_all (\<lambda>c. \<not> is_error c) (take 4 walk_denied)"
    by (simp add: walk_denied_def is_error_def)
  have "ListMDFiles ''root'' fs_guide (take 4 walk_denied) = Some (tree_guide, None)"
    by (simp add: walk_denied_def fs_guide_def tree_guide_def walk_eval)
  with ListMDFiles_first_error [OF pre, of "''root''" fs_guide "''root/private''"
      "''open root/private: permission denied''" "[Visit ''root/z.md'' ''z.md'' False]"]
  show ?thesis by (subst split) simp
qed

lemma has_key_assign:
  "map_assign m k v = Some m' \<Longrightarrow> has_key m' k' \<longleftrightarrow> k' = k \<or> has_key m k'"
  by (simp add: has_key_MapKeys MapKeys_assign)

lemma insert_doc_node_at:
  "insert_doc p dirs name title path = Some p' \<Longrightarrow>
   \<exists>l. node_at p' (filter (\<lambda>d. d \<noteq> ''.'') dirs @ [name]) = Some (MDFileInfo False None title l path)"
proof (induction dirs arbitrary: p p')
  case Nil
  then obtain m' where
    "map_assign (Children p) name (MDFileInfo False None title (Level p + 1) path) = Some m'"
    and "p' = set_Children p m'"
    by auto
  then show ?case by (simp add: has_key_assign map_index_assign)
next
  case (Cons d dirs)
  show ?case
  proof (cases "d = ''.''")
    case True
    with Cons show ?thesis by simp
  next
    case False
    with Cons.prems obtain m child m' where
      child: "insert_doc (map_index m d) dirs name title path = Some child"
      and m': "map_assign m d child = Some m'" and p': "p' = set_Children p m'"
      by (auto split: option.splits)
    from Cons.IH [OF child] obtain l where
      "node_at child (filter (\<lambda>d. d \<noteq> ''.'') dirs @ [name]) = Some (MDFileInfo False None title l path)"
      by blast
    with False m' p' show ?thesis
      by (simp add: has_key_assign map_index_assign)
  qed
qed

lemma insert_doc_panic:
  "insert_doc p dirs name title path = None \<longleftrightarrow> insert_doc p dirs name title' path' = None"
proof (induction dirs arbitrary: p)
  case Nil
  show ?case by (simp add: map_assign_def split: option.splits)
next
  case (Cons d dirs)
  show ?case
  proof (cases "d = ''.''")
    case True
    with Cons show ?thesis by simp
  next
    case False
    let ?m = "if has_key (Children p) d then Some (Children p)
              else map_assign (Children p) d
                     (MDFileInfo True (Some []) d (Level p + 1) (PathEscape (Join (Path p) d)))"
    show ?thesis
    proof (cases ?m)
      case None
      with False show ?thesis by simp
    next
      case (Some m)
      then obtain kvs where "m = Some kvs"
        by (cases m) (auto simp: has_key_def map_assign_def split: if_splits option.splits)
      then have "map_assign m d c \<noteq> None" for c by (simp add: map_assign_def)
      with False Some have step: "insert_doc p (d # dirs) name t pa = None \<longleftrightarrow>
          insert_doc (map_index m d) dirs name t pa = None" for t pa
        by (auto split: option.splits)
      show ?thesis
        unfolding step by (rule Cons.IH)
    qed
  qed
qed

lemma GetMDTitle_unreadable:
  assumes "fs path = OpenFails e \<or>
         (fs path = Opened ls (Some e) \<and> list_all (\<lambda>l. \<not> MatchString l) ls)"
  shows "GetMDTitle fs path = []"
  using assms by (auto simp: GetMDTitle_def scan_loop_none)

lemma walkFn_panic_iff:
  assumes "name \<noteq> ''README.md''" and "Ext path = ''.md''"
  shows "walkFn dirPath f root (Visit path name False) = None \<longleftrightarrow>
          insert_doc root (Split (Dir (Replace1 path dirPath ''.'')) (CHR ''/'')) name
            (GetMDTitle f path) (PathEscape (Replace1 path dirPath ''.'')) = None"
      using assms(1,2) by (simp add: walkFn_def Let_def split: option.splits)

lemma walkFn_untitled:
  assumes "name \<noteq> ''README.md''" and "Ext path = ''.md''" and title: "GetMDTitle fs path = []"
   and that: "walkFn dirPath fs root (Visit path name False) = Some (r, e')"
  shows "insert_doc root (Split (Dir (Replace1 path dirPath ''.'')) (CHR ''/'')) name []
         (PathEscape (Replace1 path dirPath ''.'')) = Some r \<and> e' = None"
  proof (cases "insert_doc root (Split (Dir (Replace1 path dirPath ''.'')) (CHR ''/'')) name []
         (PathEscape (Replace1 path dirPath ''.''))")
    case None
    with that assms(1,2) title show ?thesis by (simp add: walkFn_def Let_def)
  next
    case (Some r')
    with that assms(1,2) title show ?thesis by (simp add: walkFn_def Let_def)
  qed

lemma walkFn_panic_any_file:
  assumes "name \<noteq> ''README.md''" and "Ext path = ''.md''"
  shows "walkFn dirPath fs root (Visit path name False) = None \<longleftrightarrow>
          walkFn dirPath fs' root (Visit path name False) = None"
  unfolding walkFn_panic_iff [OF assms] by (rule insert_doc_panic)

lemma insert_doc_position:
  assumes "insert_doc root (Split (Dir (Replace1 path dirPath ''.'')) (CHR ''/'')) name []
         (PathEscape (Replace1 path dirPath ''.'')) = Some r"
  shows "\<exists>l. node_at r (doc_position dirPath (Visit path name False)) =
                 Some (MDFileInfo False None [] l (PathEscape (Replace1 path dirPath ''.'')))"
  unfolding doc_position_def walk_call.case by (rule insert_doc_node_at [OF assms])

lemma Walk_step_no_error:
  assumes stored: "\<And>r e'. walkFn dirPath fs root (Visit path name False) = Some (r, e') \<Longrightarrow> e' = None"
  shows "Walk dirPath fs root (Visit path name False # more) =
          (case walkFn dirPath fs root (Visit path name False) of
             None \<Rightarrow> None
           | Some (root', err) \<Rightarrow> Walk dirPath fs root' more)"
  proof (cases "walkFn dirPath fs root (Visit path name False)")
    case None
    then show ?thesis by simp
  next
    case (Some res)
    obtain r e' where res: "res = (r, e')" by (cases res)
    with Some stored have "e' = None" by blast
    with Some res show ?thesis by simp
  qed

text \<open>
  Claim C9. For a file that the walk visits as a document and that cannot be opened, or
  whose scan ends at a read error before any line has matched the pattern: \<open>GetMDTitle\<close>
  gives the empty string (it has no other way to fail); the callback panics for it exactly
  when it would for any other content of the file; when it does not, it returns no error and
  the tree has, at the place of the file, a document with the empty title; and the walk
  goes on with the calls that follow.
\<close>

theorem unreadable_document_not_fatal:
  assumes "name \<noteq> ''README.md''" and "Ext path = ''.md''"
    and "fs path = OpenFails e \<or>
         (fs path = Opened ls (Some e) \<and> list_all (\<lambda>l. \<not> MatchString l) ls)"
  shows "GetMDTitle fs path = []
     \<and> (walkFn dirPath fs root (Visit path name False) = None \<longleftrightarrow>
          walkFn dirPath fs' root (Visit path name False) = None)
     \<and> (walkFn dirPath fs root (Visit path name False) = Some (root', err) \<longrightarrow>
          err = None \<and>
          (\<exists>l. node_at root' (doc_position dirPath (Visit path name False)) =
                 Some (MDFileInfo False None [] l (PathEscape (Replace1 path dirPath ''.'')))))
     \<and> Walk dirPath fs root (Visit path name False # more) =
          (case walkFn dirPath fs root (Visit path name False) of
             None \<Rightarrow> None
           | Some (root', err) \<Rightarrow> Walk dirPath fs root' more)"
proof -
  have title: "GetMDTitle fs path = []"
    using assms(3) by (rule GetMDTitle_unreadable)
  have panic: "walkFn dirPath fs root (Visit path name False) = None \<longleftrightarrow>
        walkFn dirPath fs' root (Visit path name False) = None"
    using assms(1,2) by (rule walkFn_panic_any_file)
  have continues: "Walk dirPath fs root (Visit path name False # more) =
          (case walkFn dirPath fs root (Visit path name False) of
             None \<Rightarrow> None
           | Some (root', err) \<Rightarrow> Walk dirPath fs root' more)"
    using walkFn_untitled [OF assms(1,2) title] by (intro Walk_step_no_error) blast
  have inserted: "err = None \<and>
          (\<exists>l. node_at root' (doc_position dirPath (Visit path name False)) =
                 Some (MDFileInfo False None [] l (PathEscape (Replace1 path dirPath ''.''))))"
    if "walkFn dirPath fs root (Visit path name False) = Some (root', err)"
  proof
    note stored = walkFn_untitled [OF assms(1,2) title that]
    then show "err = None" by simp
    from stored [THEN conjunct1]
    show "\<exists>l. node_at root' (doc_position dirPath (Visit path name False)) =
                 Some (MDFileInfo False None [] l (PathEscape (Replace1 path dirPath ''.'')))"
      by (rule insert_doc_position)
  qed
  show ?thesis
  proof (intro conjI impI)
    show "GetMDTitle fs path = []" by (rule title)
    show "walkFn dirPath fs root (Visit path name False) = None \<longleftrightarrow>
          walkFn dirPath fs' root (Visit path name False) = None" by (rule panic)
    show "Walk dirPath fs root (Visit path name False # more) =
          (case walkFn dirPath fs root (Visit path name False) of
             None \<Rightarrow> None
           | Some (root', err) \<Rightarrow> Walk dirPath fs root' more)" by (rule continues)
  next
    assume w: "walkFn dirPath fs root (Visit path name False) = Some (root', err)"
    from inserted [OF w] show "err = None" by simp
    from inserted [OF w] show "\<exists>l. node_at root' (doc_position dirPath (Visit path name False)) =
                 Some (MDFileInfo False None [] l (PathEscape (Replace1 path dirPath ''.'')))"
      by simp
  qed
qed

lemma ListMDFiles_unreadable:
  "ListMDFiles ''root'' fs_unreadable walk_unreadable = Some (tree_unreadable, None)"
  by (simp add: walk_unreadable_def fs_unreadable_def tree_unreadable_def walk_eval)

theorem unreadable_document_not_fatal_witness:
  "GetMDTitle fs_unreadable ''root/docs/locked.md'' = []
   \<and> GetMDTitle fs_unreadable ''root/docs/torn.md'' = []
   \<and> ListMDFiles ''root'' fs_unreadable walk_unreadable = Some (tree_unreadable, None)
   \<and> node_at tree_unreadable [''docs'', ''locked.md''] =
       Some (MDFileInfo False None [] 2 ''.%2Fdocs%2Flocked.md'')
   \<and> node_at tree_unreadable [''docs'', ''torn.md''] =
       Some (MDFileInfo False None [] 2 ''.%2Fdocs%2Ftorn.md'')
   \<and> node_at tree_unreadable [''docs'', ''guide.md''] =
       Some (MDFileInfo False None ''Guide'' 2 ''.%2Fdocs%2Fguide.md'')"
proof -
  have locked: "''locked.md'' \<noteq> ''README.md''" "Ext ''root/docs/locked.md'' = ''.md''"
    "fs_unreadable ''root/docs/locked.md'' = OpenFails ''open root/docs/locked.md: permission denied'' \<or>
     (fs_unreadable ''root/docs/locked.md'' =
        Opened [] (Some ''open root/docs/locked.md: permission denied'') \<and>
      list_all (\<lambda>l. \<not> MatchString l) [])"
    by (simp_all add: Ext_def fs_unreadable_def)
  have torn: "''torn.md'' \<noteq> ''README.md''" "Ext ''root/docs/torn.md'' = ''.md''"
    "fs_unreadable ''root/docs/torn.md'' = OpenFails ''read root/docs/torn.md: input/output error'' \<or>
     (fs_unreadable ''root/docs/torn.md'' =
        Opened [''intro''] (Some ''read root/docs/torn.md: input/output error'') \<and>
      list_all (\<lambda>l. \<not> MatchString l) [''intro''])"
    by (simp_all add: Ext_def fs_unreadable_def MatchString_Cons)
  have t1: "GetMDTitle fs_unreadable ''root/docs/locked.md'' = []"
    using unreadable_document_not_fatal [where fs = fs_unreadable and path = "''root/docs/locked.md''"
        and name = "''locked.md''" and e = "''open root/docs/locked.md: permission denied''"
        and ls = "[]" and dirPath = "''root''" and root = "MDFileInfo True (Some []) [] 0 ''.''"
        and fs' = fs_guide and root' = tree_guide and err = None and more = "[]", OF locked]
    by (rule conjunct1)
  have t2: "GetMDTitle fs_unreadable ''root/docs/torn.md'' = []"
    using unreadable_document_not_fatal [where fs = fs_unreadable and path = "''root/docs/torn.md''"
        and name = "''torn.md''" and e = "''read root/docs/torn.md: input/output error''"
        and ls = "[''intro'']" and dirPath = "''root''" and root = "MDFileInfo True (Some []) [] 0 ''.''"
        and fs' = fs_guide and root' = tree_guide and err = None and more = "[]", OF torn]
    by (rule conjunct1)
  have nodes: "node_at tree_unreadable [''docs'', ''locked.md''] =
       Some (MDFileInfo False None [] 2 ''.%2Fdocs%2Flocked.md'')
   \<and> node_at tree_unreadable [''docs'', ''torn.md''] =
       Some (MDFileInfo False None [] 2 ''.%2Fdocs%2Ftorn.md'')
   \<and> node_at tree_unreadable [''docs'', ''guide.md''] =
       Some (MDFileInfo False None ''Guide'' 2 ''.%2Fdocs%2Fguide.md'')"
    by (simp add: tree_unreadable_def has_key_def map_index_def)
  from t1 t2 ListMDFiles_unreadable nodes show ?thesis by (intro conjI) simp_all
qed

subsection \<open>The number of documents\<close>


























end
